theory Spec2Isabelle
  imports Complex_Main "HOL-Library.Multiset"
begin

section \<open>Numbers\<close>

text \<open>
  Scores, probabilities and weights are Python floats that the simulator adds, multiplies,
  raises to a power and compares; they are modelled as \<^typ>\<open>real\<close>, so rounding is left
  out of the model. What is kept is the one float operation of the simulator that can
  raise, the power (below). A video duration is only ever compared, and float comparison
  is exact, so a duration keeps the three values of a float that are not numbers.
\<close>

datatype pyfloat = Finite real | PosInf | NegInf | NaN

text \<open>\<^verbatim>\<open>a <= b\<close> and \<^verbatim>\<open>a < b\<close> on floats: every comparison with NaN is false.\<close>

fun float_le :: "pyfloat \<Rightarrow> pyfloat \<Rightarrow> bool" where
  "float_le NaN b = False"
| "float_le a NaN = False"
| "float_le NegInf b = True"
| "float_le a PosInf = True"
| "float_le (Finite x) (Finite y) = (x \<le> y)"
| "float_le PosInf b = False"
| "float_le a NegInf = False"

fun float_lt :: "pyfloat \<Rightarrow> pyfloat \<Rightarrow> bool" where
  "float_lt NaN b = False"
| "float_lt a NaN = False"
| "float_lt PosInf b = False"
| "float_lt a NegInf = False"
| "float_lt (Finite x) (Finite y) = (x < y)"
| "float_lt NegInf b = True"
| "float_lt a PosInf = True"

section \<open>Data model\<close>

text \<open>The dataclass \<^verbatim>\<open>Post\<close>; \<^verbatim>\<open>id\<close> and \<^verbatim>\<open>text\<close> carry a prime.\<close>

record Post =
  id' :: string
  author_id :: string
  text' :: string
  has_video :: bool
  video_duration_sec :: "pyfloat option"
  is_in_network :: bool

section \<open>Video bonus\<close>

text \<open>
  \<^verbatim>\<open>video_quality_bonus\<close>. The guard \<^verbatim>\<open>not post.has_video or post.video_duration_sec is None\<close>
  is the first \<open>if\<close> and the \<open>None\<close> case; the chained comparisons are conjunctions.
\<close>

definition video_quality_bonus :: "Post \<Rightarrow> real" where
  "video_quality_bonus post =
     (if \<not> has_video post then 0.0
      else case video_duration_sec post of
        None \<Rightarrow> 0.0
      | Some duration \<Rightarrow>
          if float_le (Finite 15) duration \<and> float_le duration (Finite 60) then 0.5
          else if float_le (Finite 5) duration \<and> float_lt duration (Finite 15)
                  \<or> float_lt (Finite 60) duration \<and> float_le duration (Finite 180) then 0.3
          else 0.1)"

section \<open>The weighted scorer\<close>

text \<open>The dataclass \<^verbatim>\<open>EngagementPredictions\<close>: one probability per action.\<close>

record EngagementPredictions =
  favorite :: real
  reply :: real
  repost :: real
  quote :: real
  click :: real
  profile_click :: real
  video_view :: real
  photo_expand :: real
  share :: real
  dwell :: real
  follow_author :: real
  not_interested :: real
  block_author :: real
  mute_author :: real
  report :: real

text \<open>
  The exceptions the ranking code could raise: \<^verbatim>\<open>getattr\<close> on a name the object does not
  have, a product of a float and a value that is not a number, a list index out of
  range, and a float power that overflows.
\<close>

datatype error = AttributeError string | TypeError | IndexError | OverflowError

text \<open>
  \<^verbatim>\<open>x ** n\<close> for a float \<open>x\<close> and a count \<open>n\<close>. CPython raises OverflowError when the result
  is infinite, that is when the power is so large that it rounds beyond the largest
  double; the bound is the midpoint between the largest double and 2^1024. A power that
  underflows is returned without an error.
\<close>

definition float_overflow :: real where
  "float_overflow = 2 ^ 1024 - 2 ^ 970"

definition float_pow :: "real \<Rightarrow> nat \<Rightarrow> error + real" where
  "float_pow x n = (if float_overflow \<le> \<bar>x ^ n\<bar> then Inl OverflowError else Inr (x ^ n))"

text \<open>
  \<^verbatim>\<open>ACTION_WEIGHTS\<close>: a dict literal; iteration over \<^verbatim>\<open>.items()\<close> follows insertion order,
  so it is the list of its entries.
\<close>

definition ACTION_WEIGHTS :: "(string \<times> real) list" where
  "ACTION_WEIGHTS =
     [(''favorite'', 1.0),
      (''reply'', 2.0),
      (''repost'', 1.5),
      (''quote'', 2.5),
      (''click'', 0.5),
      (''profile_click'', 0.3),
      (''video_view'', 0.8),
      (''photo_expand'', 0.3),
      (''share'', 1.5),
      (''dwell'', 0.2),
      (''follow_author'', 3.0),
      (''not_interested'', - 5.0),
      (''block_author'', - 10.0),
      (''mute_author'', - 8.0),
      (''report'', - 15.0)]"

text \<open>
  \<^verbatim>\<open>getattr(predictions, action)\<close>. A name of one of the 15 fields gives the value of the
  field, a float. Any other name is looked up among the other attributes of the object
  (\<^verbatim>\<open>__doc__\<close>, \<^verbatim>\<open>__module__\<close>, the methods, ...), which come from Python and the dataclass
  decorator and not from the source: they are the argument \<open>attrs\<close>, a map from names to
  values, where a value is a number or something else. A name the object does not have
  raises AttributeError.
\<close>

datatype attr = Number real | Other

definition field_value :: "EngagementPredictions \<Rightarrow> string \<Rightarrow> real option" where
  "field_value predictions name =
     (if name = ''favorite'' then Some (favorite predictions)
      else if name = ''reply'' then Some (reply predictions)
      else if name = ''repost'' then Some (repost predictions)
      else if name = ''quote'' then Some (quote predictions)
      else if name = ''click'' then Some (click predictions)
      else if name = ''profile_click'' then Some (profile_click predictions)
      else if name = ''video_view'' then Some (video_view predictions)
      else if name = ''photo_expand'' then Some (photo_expand predictions)
      else if name = ''share'' then Some (share predictions)
      else if name = ''dwell'' then Some (dwell predictions)
      else if name = ''follow_author'' then Some (follow_author predictions)
      else if name = ''not_interested'' then Some (not_interested predictions)
      else if name = ''block_author'' then Some (block_author predictions)
      else if name = ''mute_author'' then Some (mute_author predictions)
      else if name = ''report'' then Some (report predictions)
      else None)"

definition getattr :: "(string \<rightharpoonup> attr) \<Rightarrow> EngagementPredictions \<Rightarrow> string \<Rightarrow> error + attr" where
  "getattr attrs predictions name =
     (case field_value predictions name of
        Some v \<Rightarrow> Inr (Number v)
      | None \<Rightarrow> (case attrs name of Some a \<Rightarrow> Inr a | None \<Rightarrow> Inl (AttributeError name)))"

text \<open>
  \<^verbatim>\<open>compute_weighted_score\<close>. The loop over the items of the weight table carries the
  running score; \<^verbatim>\<open>weight * probability\<close> raises TypeError when the attribute is not a
  number. The table the source reads from the module is an argument of the loop and of
  \<open>compute_weighted_score_with\<close>. \<open>compute_weighted_score\<close> is the source's function, on
  \<open>ACTION_WEIGHTS\<close>: every key of that table is a field, so no other attribute is ever
  looked up and the result is the same for every \<open>attrs\<close> (lemma
  \<open>compute_weighted_score_attrs\<close> below).
\<close>

fun weighted_loop ::
  "(string \<rightharpoonup> attr) \<Rightarrow> (string \<times> real) list \<Rightarrow> EngagementPredictions \<Rightarrow> real \<Rightarrow> error + real" where
  "weighted_loop attrs [] predictions score = Inr score"
| "weighted_loop attrs ((action, weight) # items) predictions score =
     (case getattr attrs predictions action of
        Inl e \<Rightarrow> Inl e
      | Inr Other \<Rightarrow> Inl TypeError
      | Inr (Number probability) \<Rightarrow>
          weighted_loop attrs items predictions (score + weight * probability))"

definition compute_weighted_score_with ::
  "(string \<rightharpoonup> attr) \<Rightarrow> (string \<times> real) list \<Rightarrow> EngagementPredictions \<Rightarrow> error + real" where
  "compute_weighted_score_with attrs weights predictions =
     weighted_loop attrs weights predictions 0.0"

definition compute_weighted_score :: "EngagementPredictions \<Rightarrow> error + real" where
  "compute_weighted_score predictions =
     compute_weighted_score_with Map.empty ACTION_WEIGHTS predictions"

section \<open>Author diversity decay\<close>

text \<open>
  \<^verbatim>\<open>apply_author_diversity_decay\<close>. The loop carries the dict \<^verbatim>\<open>author_counts\<close> (a map;
  \<open>dict_get\<close> is \<^verbatim>\<open>dict.get(key, default)\<close>) and the list \<^verbatim>\<open>adjusted_results\<close>, which grows
  at its end. \<^verbatim>\<open>decay_factor ** count\<close> is \<open>float_pow\<close>: the count is a natural number, and
  an overflow of the power ends the loop with OverflowError.
\<close>

definition dict_get :: "('k \<rightharpoonup> 'v) \<Rightarrow> 'k \<Rightarrow> 'v \<Rightarrow> 'v" where
  "dict_get d k dflt = (case d k of None \<Rightarrow> dflt | Some v \<Rightarrow> v)"

fun decay_loop ::
  "real \<Rightarrow> (Post \<times> real) list \<Rightarrow> (string \<rightharpoonup> nat) \<Rightarrow> (Post \<times> real) list
     \<Rightarrow> error + (Post \<times> real) list" where
  "decay_loop decay_factor [] author_counts adjusted_results = Inr adjusted_results"
| "decay_loop decay_factor ((post, score) # rest) author_counts adjusted_results =
     (let count = dict_get author_counts (author_id post) 0 in
      case float_pow decay_factor count of
        Inl e \<Rightarrow> Inl e
      | Inr decay \<Rightarrow>
          let adjusted_score = score * decay
          in decay_loop decay_factor rest
               (author_counts(author_id post \<mapsto> count + 1))
               (adjusted_results @ [(post, adjusted_score)]))"

definition apply_author_diversity_decay ::
  "(Post \<times> real) list \<Rightarrow> real \<Rightarrow> error + (Post \<times> real) list" where
  "apply_author_diversity_decay posts_with_scores decay_factor =
     decay_loop decay_factor posts_with_scores Map.empty []"

text \<open>The default value of the parameter \<^verbatim>\<open>decay_factor\<close>.\<close>

definition default_decay_factor :: real where
  "default_decay_factor = 0.7"

section \<open>The predictor\<close>

text \<open>
  \<^verbatim>\<open>simulate_phoenix_predictions\<close> draws from Python's module-level generator. The
  generator is explicit state of some type \<open>'g\<close>; \<open>rnd\<close> stands for \<^verbatim>\<open>random.random()\<close>,
  which returns a number in [0, 1) and the next state, and \<^verbatim>\<open>random.uniform(a, b)\<close> is
  \<^verbatim>\<open>a + (b - a) * random()\<close>. Keyword arguments are evaluated in the order written, so the
  draws are threaded in that order; \<^verbatim>\<open>video_view\<close> and \<^verbatim>\<open>follow_author\<close> draw nothing.
\<close>

definition uniform :: "('g \<Rightarrow> real \<times> 'g) \<Rightarrow> real \<Rightarrow> real \<Rightarrow> 'g \<Rightarrow> real \<times> 'g" where
  "uniform rnd a b g = (case rnd g of (u, g') \<Rightarrow> (a + (b - a) * u, g'))"

definition simulate_phoenix_predictions ::
  "('g \<Rightarrow> real \<times> 'g) \<Rightarrow> Post \<Rightarrow> bool \<Rightarrow> 'g \<Rightarrow> EngagementPredictions \<times> 'g" where
  "simulate_phoenix_predictions rnd post user_follows_author g0 =
     (case uniform rnd 0.01 0.05 g0 of (base, g1) \<Rightarrow>
      let network_boost = (if user_follows_author then 1.5 else 1.0);
          video_boost = (if has_video post then 1.3 else 1.0) in
      case uniform rnd 0 0.1 g1 of (u_favorite, g2) \<Rightarrow>
      case uniform rnd 0 0.03 g2 of (u_reply, g3) \<Rightarrow>
      case uniform rnd 0 0.05 g3 of (u_repost, g4) \<Rightarrow>
      case uniform rnd 0 0.02 g4 of (u_quote, g5) \<Rightarrow>
      case uniform rnd 0 0.15 g5 of (u_click, g6) \<Rightarrow>
      case uniform rnd 0 0.05 g6 of (u_profile_click, g7) \<Rightarrow>
      case uniform rnd 0 0.05 g7 of (u_photo_expand, g8) \<Rightarrow>
      case uniform rnd 0 0.03 g8 of (u_share, g9) \<Rightarrow>
      case uniform rnd 0 0.2 g9 of (u_dwell, g10) \<Rightarrow>
      case uniform rnd 0 0.02 g10 of (u_not_interested, g11) \<Rightarrow>
      case uniform rnd 0 0.005 g11 of (u_block_author, g12) \<Rightarrow>
      case uniform rnd 0 0.008 g12 of (u_mute_author, g13) \<Rightarrow>
      case uniform rnd 0 0.002 g13 of (u_report, g14) \<Rightarrow>
      (\<lparr>favorite = min 0.95 (base * 3 * network_boost + u_favorite),
        reply = min 0.95 (base * 0.5 * network_boost + u_reply),
        repost = min 0.95 (base * 0.8 * network_boost + u_repost),
        quote = min 0.95 (base * 0.3 * network_boost + u_quote),
        click = min 0.95 (base * 2 + u_click),
        profile_click = min 0.95 (base * 0.4 + u_profile_click),
        video_view = min 0.95 (if has_video post then base * 4 * video_boost else 0.01),
        photo_expand = min 0.95 (base * 0.6 + u_photo_expand),
        share = min 0.95 (base * 0.4 * network_boost + u_share),
        dwell = min 0.95 (base * 5 + u_dwell),
        follow_author = min 0.95 (if \<not> user_follows_author then base * 0.1 else 0.001),
        not_interested = max 0.001 u_not_interested,
        block_author = max 0.001 u_block_author,
        mute_author = max 0.001 u_mute_author,
        report = max 0.001 u_report\<rparr>, g14))"

section \<open>The ranking pipeline\<close>

type_synonym scored = "Post \<times> real \<times> EngagementPredictions"

type_synonym 'g predictor = "Post \<Rightarrow> bool \<Rightarrow> 'g \<Rightarrow> EngagementPredictions \<times> 'g"

text \<open>
  \<^verbatim>\<open>list.sort(key=..., reverse=True)\<close>: Python's sort is stable, and with \<^verbatim>\<open>reverse=True\<close>
  elements with equal keys still keep their order. \<open>sort_key\<close> is the stable insertion
  sort of the library, ascending; on the negated key it is the stable descending sort.
\<close>

definition sort_desc :: "('a \<Rightarrow> real) \<Rightarrow> 'a list \<Rightarrow> 'a list" where
  "sort_desc key xs = sort_key (\<lambda>x. - key x) xs"

text \<open>The key \<^verbatim>\<open>lambda x: x[1]\<close> of both sorts.\<close>

definition score_of :: "scored \<Rightarrow> real" where
  "score_of x = fst (snd x)"

text \<open>
  Steps 1 to 3 of \<^verbatim>\<open>rank_posts\<close>: the loop over \<^verbatim>\<open>posts\<close> that appends to \<^verbatim>\<open>scored_posts\<close>.
  The predictor called in the loop is the argument \<open>predict\<close>, which threads the
  generator state.
\<close>

fun score_loop ::
  "'g predictor \<Rightarrow> Post list \<Rightarrow> string set \<Rightarrow> 'g \<Rightarrow> scored list \<Rightarrow> error + (scored list \<times> 'g)" where
  "score_loop predict [] user_following g scored_posts = Inr (scored_posts, g)"
| "score_loop predict (post # posts) user_following g scored_posts =
     (let user_follows = (author_id post \<in> user_following) in
      case predict post user_follows g of (predictions, g') \<Rightarrow>
      case compute_weighted_score predictions of
        Inl e \<Rightarrow> Inl e
      | Inr base_score \<Rightarrow>
          let video_bonus = video_quality_bonus post;
              score = base_score + video_bonus
          in score_loop predict posts user_following g'
               (scored_posts @ [(post, score, predictions)]))"

text \<open>
  The loop that rebuilds the triples: \<^verbatim>\<open>scored_posts[i]\<close> raises IndexError out of range.
\<close>

fun rebuild_loop ::
  "(nat \<times> (Post \<times> real)) list \<Rightarrow> scored list \<Rightarrow> scored list \<Rightarrow> error + scored list" where
  "rebuild_loop [] scored_posts final_results = Inr final_results"
| "rebuild_loop ((i, (post, adjusted_score)) # rest) scored_posts final_results =
     (if i < length scored_posts
      then (case scored_posts ! i of (_, _, predictions) \<Rightarrow>
              rebuild_loop rest scored_posts (final_results @ [(post, adjusted_score, predictions)]))
      else Inl IndexError)"

text \<open>
  \<^verbatim>\<open>rank_posts\<close> with the predictor as an argument, and \<^verbatim>\<open>rank_posts\<close> itself, which calls
  \<^verbatim>\<open>simulate_phoenix_predictions\<close>. The decay is called with its default factor.
\<close>

definition rank_posts_with ::
  "'g predictor \<Rightarrow> Post list \<Rightarrow> string set \<Rightarrow> 'g \<Rightarrow> error + (scored list \<times> 'g)" where
  "rank_posts_with predict posts user_following g =
     (case score_loop predict posts user_following g [] of
        Inl e \<Rightarrow> Inl e
      | Inr (scored_posts0, g') \<Rightarrow>
          let scored_posts = sort_desc score_of scored_posts0;
              posts_scores = map (\<lambda>(p, s, _). (p, s)) scored_posts
          in case apply_author_diversity_decay posts_scores default_decay_factor of
               Inl e \<Rightarrow> Inl e
             | Inr adjusted \<Rightarrow>
                 (case rebuild_loop (enumerate 0 adjusted) scored_posts [] of
                    Inl e \<Rightarrow> Inl e
                  | Inr final_results \<Rightarrow> Inr (sort_desc score_of final_results, g')))"

definition rank_posts ::
  "('g \<Rightarrow> real \<times> 'g) \<Rightarrow> Post list \<Rightarrow> string set \<Rightarrow> 'g \<Rightarrow> error + (scored list \<times> 'g)" where
  "rank_posts rnd posts user_following g =
     rank_posts_with (simulate_phoenix_predictions rnd) posts user_following g"

section \<open>The pipeline in the words of the specification\<close>

text \<open>
  The definitions of this section follow the specification, not the code; the theorems
  below compare them with the code. ActionKind is the closed enumeration of engagement
  signals; a PredictionVector and a WeightTable are functions on it.
\<close>

datatype ActionKind =
    Favorite
  | Reply
  | Repost
  | Quote
  | Click
  | ProfileClick
  | VideoView
  | PhotoExpand
  | Share
  | Dwell
  | FollowAuthor
  | NotInterested
  | BlockAuthor
  | MuteAuthor
  | Report

definition all_actions :: "ActionKind list" where
  "all_actions =
     [Favorite, Reply, Repost, Quote, Click, ProfileClick,
      VideoView, PhotoExpand, Share, Dwell, FollowAuthor,
      NotInterested, BlockAuthor, MuteAuthor, Report]"

fun action_name :: "ActionKind \<Rightarrow> string" where
  "action_name Favorite = ''favorite''"
| "action_name Reply = ''reply''"
| "action_name Repost = ''repost''"
| "action_name Quote = ''quote''"
| "action_name Click = ''click''"
| "action_name ProfileClick = ''profile_click''"
| "action_name VideoView = ''video_view''"
| "action_name PhotoExpand = ''photo_expand''"
| "action_name Share = ''share''"
| "action_name Dwell = ''dwell''"
| "action_name FollowAuthor = ''follow_author''"
| "action_name NotInterested = ''not_interested''"
| "action_name BlockAuthor = ''block_author''"
| "action_name MuteAuthor = ''mute_author''"
| "action_name Report = ''report''"

fun prediction_vector :: "EngagementPredictions \<Rightarrow> ActionKind \<Rightarrow> real" where
  "prediction_vector pv Favorite = favorite pv"
| "prediction_vector pv Reply = reply pv"
| "prediction_vector pv Repost = repost pv"
| "prediction_vector pv Quote = quote pv"
| "prediction_vector pv Click = click pv"
| "prediction_vector pv ProfileClick = profile_click pv"
| "prediction_vector pv VideoView = video_view pv"
| "prediction_vector pv PhotoExpand = photo_expand pv"
| "prediction_vector pv Share = share pv"
| "prediction_vector pv Dwell = dwell pv"
| "prediction_vector pv FollowAuthor = follow_author pv"
| "prediction_vector pv NotInterested = not_interested pv"
| "prediction_vector pv BlockAuthor = block_author pv"
| "prediction_vector pv MuteAuthor = mute_author pv"
| "prediction_vector pv Report = report pv"

text \<open>The weight of an action in the table of the code (0 if the table has no entry).\<close>

definition weight_in :: "(string \<times> real) list \<Rightarrow> ActionKind \<Rightarrow> real" where
  "weight_in weights a = (case map_of weights (action_name a) of Some w \<Rightarrow> w | None \<Rightarrow> 0)"

text \<open>WeightedScorer: the sum over all ActionKind of weight times probability.\<close>

definition WeightedScorer :: "(ActionKind \<Rightarrow> real) \<Rightarrow> (ActionKind \<Rightarrow> real) \<Rightarrow> real" where
  "WeightedScorer predictions weights = (\<Sum>a\<leftarrow>all_actions. weights a * predictions a)"

text \<open>
  The number of items strictly before position \<open>i\<close> that have the author of the item at
  position \<open>i\<close>: the \<open>k\<close> of the k-th occurrence of an author.
\<close>

definition earlier_same_author :: "(Post \<times> 'b) list \<Rightarrow> nat \<Rightarrow> nat" where
  "earlier_same_author xs i =
     length (filter (\<lambda>x. author_id (fst x) = author_id (fst (xs ! i))) (take i xs))"

text \<open>DiversityDecay on (item, score) pairs: position by position, score times factor^k.\<close>

definition DiversityDecay :: "(Post \<times> real) list \<Rightarrow> real \<Rightarrow> (Post \<times> real) list" where
  "DiversityDecay ranked factor =
     map (\<lambda>i. (fst (ranked ! i), snd (ranked ! i) * factor ^ earlier_same_author ranked i))
       [0..<length ranked]"

text \<open>The same on scored items, which keep their prediction vector.\<close>

definition decay_scored :: "scored list \<Rightarrow> real \<Rightarrow> scored list" where
  "decay_scored ranked factor =
     map (\<lambda>i. case ranked ! i of
                 (item, s, pv) \<Rightarrow> (item, s * factor ^ earlier_same_author ranked i, pv))
       [0..<length ranked]"

text \<open>
  Step 1: one call of the predictor per item, in input order; the result is the list of
  prediction vectors and the state the predictor leaves.
\<close>

fun predictions_for ::
  "'g predictor \<Rightarrow> string set \<Rightarrow> Post list \<Rightarrow> 'g \<Rightarrow> EngagementPredictions list \<times> 'g" where
  "predictions_for predict following [] g = ([], g)"
| "predictions_for predict following (item # items) g =
     (case predict item (author_id item \<in> following) g of
        (pv, g') \<Rightarrow>
          (case predictions_for predict following items g' of
             (pvs, g'') \<Rightarrow> (pv # pvs, g'')))"

text \<open>Steps 2 and 3: the pre-diversity score of every item, in input order.\<close>

definition scored_items :: "'g predictor \<Rightarrow> string set \<Rightarrow> Post list \<Rightarrow> 'g \<Rightarrow> scored list" where
  "scored_items predict following items g =
     map (\<lambda>(item, pv).
            (item,
             WeightedScorer (prediction_vector pv) (weight_in ACTION_WEIGHTS)
               + video_quality_bonus item,
             pv))
       (zip items (fst (predictions_for predict following items g)))"

text \<open>Step 4, step 5 and step 6.\<close>

definition pre_decay_order :: "'g predictor \<Rightarrow> string set \<Rightarrow> Post list \<Rightarrow> 'g \<Rightarrow> scored list" where
  "pre_decay_order predict following items g =
     sort_desc score_of (scored_items predict following items g)"

definition decayed_items :: "'g predictor \<Rightarrow> string set \<Rightarrow> Post list \<Rightarrow> 'g \<Rightarrow> scored list" where
  "decayed_items predict following items g =
     decay_scored (pre_decay_order predict following items g) default_decay_factor"

definition rank_spec :: "'g predictor \<Rightarrow> string set \<Rightarrow> Post list \<Rightarrow> 'g \<Rightarrow> scored list" where
  "rank_spec predict following items g =
     sort_desc score_of (decayed_items predict following items g)"

section \<open>Sample data\<close>

text \<open>The candidate posts and the followed authors of \<^verbatim>\<open>main\<close>.\<close>

definition post1 :: Post where
  "post1 = \<lparr>id' = ''1'', author_id = ''alice'',
            text' = ''Just shipped a new feature! Thread on what we learned...'',
            has_video = False, video_duration_sec = None, is_in_network = True\<rparr>"

definition post2 :: Post where
  "post2 = \<lparr>id' = ''2'', author_id = ''alice'',
            text' = ''Follow-up: here's the technical deep dive'',
            has_video = False, video_duration_sec = None, is_in_network = True\<rparr>"

definition post3 :: Post where
  "post3 = \<lparr>id' = ''3'', author_id = ''bob'',
            text' = ''Hot take: tabs are better than spaces'',
            has_video = False, video_duration_sec = None, is_in_network = True\<rparr>"

definition post4 :: Post where
  "post4 = \<lparr>id' = ''4'', author_id = ''viral_account'',
            text' = ''This video will change how you think about productivity'',
            has_video = True, video_duration_sec = Some (Finite 45), is_in_network = False\<rparr>"

definition post5 :: Post where
  "post5 = \<lparr>id' = ''5'', author_id = ''news_org'',
            text' = ''Breaking: major announcement in tech industry'',
            has_video = False, video_duration_sec = None, is_in_network = False\<rparr>"

definition post6 :: Post where
  "post6 = \<lparr>id' = ''6'', author_id = ''viral_account'',
            text' = ''Another banger video for you'',
            has_video = True, video_duration_sec = Some (Finite 120), is_in_network = False\<rparr>"

definition sample_following :: "string set" where
  "sample_following = {''alice'', ''bob''}"

text \<open>
  Some of the attributes that an instance of a dataclass has besides its fields; none of
  these is a number. They are part of Python, not of the source.
\<close>

definition object_attrs :: "string \<rightharpoonup> attr" where
  "object_attrs =
     [''__doc__'' \<mapsto> Other, ''__module__'' \<mapsto> Other, ''__class__'' \<mapsto> Other,
      ''__dict__'' \<mapsto> Other, ''__init__'' \<mapsto> Other, ''__repr__'' \<mapsto> Other,
      ''__eq__'' \<mapsto> Other]"

text \<open>\<^verbatim>\<open>EngagementPredictions()\<close>: every field has the default 0.0.\<close>

definition default_predictions :: EngagementPredictions where
  "default_predictions =
     \<lparr>favorite = 0.0, reply = 0.0, repost = 0.0,
      quote = 0.0, click = 0.0, profile_click = 0.0,
      video_view = 0.0, photo_expand = 0.0, share = 0.0,
      dwell = 0.0, follow_author = 0.0, not_interested = 0.0,
      block_author = 0.0, mute_author = 0.0, report = 0.0\<rparr>"

text \<open>
  A predictor stub: the prediction vector is looked up by the id of the post, and the
  state only counts the calls.
\<close>

definition table_predictor :: "(string \<Rightarrow> EngagementPredictions) \<Rightarrow> nat predictor" where
  "table_predictor table post user_follows calls = (table (id' post), calls + 1)"

text \<open>
  Three posts and a table for the stub: \<open>tie_y\<close> scores 0.7, \<open>tie_z\<close> scores 2 and \<open>tie_x\<close>
  scores 1, and \<open>tie_z\<close> and \<open>tie_x\<close> have the same author.
\<close>

definition tie_y :: Post where
  "tie_y = \<lparr>id' = ''y'', author_id = ''bob'', text' = ''first in the input'',
            has_video = False, video_duration_sec = None, is_in_network = False\<rparr>"

definition tie_z :: Post where
  "tie_z = \<lparr>id' = ''z'', author_id = ''alice'', text' = ''second in the input'',
            has_video = False, video_duration_sec = None, is_in_network = False\<rparr>"

definition tie_x :: Post where
  "tie_x = \<lparr>id' = ''x'', author_id = ''alice'', text' = ''third in the input'',
            has_video = False, video_duration_sec = None, is_in_network = False\<rparr>"

definition tie_table :: "string \<Rightarrow> EngagementPredictions" where
  "tie_table i =
     (if i = ''y'' then default_predictions\<lparr>favorite := 0.7\<rparr>
      else if i = ''z'' then default_predictions\<lparr>reply := 1.0\<rparr>
      else default_predictions\<lparr>favorite := 1.0\<rparr>)"

text \<open>A generator whose every draw is 0 (the state counts the draws).\<close>

definition zero_draws :: "nat \<Rightarrow> real \<times> nat" where
  "zero_draws n = (0, Suc n)"

section \<open>Properties of the video bonus\<close>

lemma video_quality_bonus_no_video: "\<not> has_video p \<Longrightarrow> video_quality_bonus p = 0"
  by (simp add: video_quality_bonus_def)

lemma video_quality_bonus_unknown: "video_duration_sec p = None \<Longrightarrow> video_quality_bonus p = 0"
  by (simp add: video_quality_bonus_def)

lemma video_quality_bonus_finite:
  assumes "has_video p" and "video_duration_sec p = Some (Finite d)"
  shows "video_quality_bonus p =
           (if 15 \<le> d \<and> d \<le> 60 then 0.5
            else if 5 \<le> d \<and> d < 15 \<or> 60 < d \<and> d \<le> 180 then 0.3 else 0.1)"
  using assms by (simp add: video_quality_bonus_def)

text \<open>
  C5. The bonus is 0 for an item without video or without a duration (whatever the
  duration field of a no-video item holds), 0.5 for a duration in [15, 60], 0.3 for a
  duration in [5, 15) or (60, 180], and 0.1 for a duration below 5 or above 180; so
  14.999 gives 0.3, 15 and 60 give 0.5, 60.001 gives 0.3, 5 and 180 give 0.3, 4.999 and
  181 give 0.1.
\<close>

theorem video_quality_bonus_bands:
  "(\<not> has_video p0 \<or> video_duration_sec p0 = None \<longrightarrow> video_quality_bonus p0 = 0.0)
   \<and> (has_video p1 \<and> video_duration_sec p1 = Some (Finite d1) \<and> 15 \<le> d1 \<and> d1 \<le> 60
        \<longrightarrow> video_quality_bonus p1 = 0.5)
   \<and> (has_video p2 \<and> video_duration_sec p2 = Some (Finite d2)
        \<and> (5 \<le> d2 \<and> d2 < 15 \<or> 60 < d2 \<and> d2 \<le> 180)
        \<longrightarrow> video_quality_bonus p2 = 0.3)
   \<and> (has_video p3 \<and> video_duration_sec p3 = Some (Finite d3) \<and> (d3 < 5 \<or> 180 < d3)
        \<longrightarrow> video_quality_bonus p3 = 0.1)
   \<and> video_quality_bonus (p\<lparr>has_video := True, video_duration_sec := Some (Finite 14.999)\<rparr>) = 0.3
   \<and> video_quality_bonus (p\<lparr>has_video := True, video_duration_sec := Some (Finite 15.0)\<rparr>) = 0.5
   \<and> video_quality_bonus (p\<lparr>has_video := True, video_duration_sec := Some (Finite 60.0)\<rparr>) = 0.5
   \<and> video_quality_bonus (p\<lparr>has_video := True, video_duration_sec := Some (Finite 60.001)\<rparr>) = 0.3
   \<and> video_quality_bonus (p\<lparr>has_video := True, video_duration_sec := Some (Finite 5)\<rparr>) = 0.3
   \<and> video_quality_bonus (p\<lparr>has_video := True, video_duration_sec := Some (Finite 180)\<rparr>) = 0.3
   \<and> video_quality_bonus (p\<lparr>has_video := True, video_duration_sec := Some (Finite 4.999)\<rparr>) = 0.1
   \<and> video_quality_bonus (p\<lparr>has_video := True, video_duration_sec := Some (Finite 181)\<rparr>) = 0.1
   \<and> video_quality_bonus (p\<lparr>has_video := False, video_duration_sec := dur\<rparr>) = 0.0"
proof -
  have a: "\<not> has_video p0 \<or> video_duration_sec p0 = None \<longrightarrow> video_quality_bonus p0 = 0.0"
    using video_quality_bonus_no_video video_quality_bonus_unknown by auto
  have b: "has_video p1 \<and> video_duration_sec p1 = Some (Finite d1) \<and> 15 \<le> d1 \<and> d1 \<le> 60
        \<longrightarrow> video_quality_bonus p1 = 0.5"
    by (simp add: video_quality_bonus_finite)
  have c: "has_video p2 \<and> video_duration_sec p2 = Some (Finite d2)
        \<and> (5 \<le> d2 \<and> d2 < 15 \<or> 60 < d2 \<and> d2 \<le> 180)
        \<longrightarrow> video_quality_bonus p2 = 0.3"
    by (auto simp add: video_quality_bonus_finite)
  have d: "has_video p3 \<and> video_duration_sec p3 = Some (Finite d3) \<and> (d3 < 5 \<or> 180 < d3)
        \<longrightarrow> video_quality_bonus p3 = 0.1"
    by (auto simp add: video_quality_bonus_finite)
  have e: "video_quality_bonus (p\<lparr>has_video := True, video_duration_sec := Some (Finite x)\<rparr>) =
           (if 15 \<le> x \<and> x \<le> 60 then 0.5
            else if 5 \<le> x \<and> x < 15 \<or> 60 < x \<and> x \<le> 180 then 0.3 else 0.1)" for x
    by (simp add: video_quality_bonus_finite)
  have f: "video_quality_bonus (p\<lparr>has_video := False, video_duration_sec := dur\<rparr>) = 0.0"
    by (simp add: video_quality_bonus_no_video)
  show ?thesis
    unfolding e using a b c d f by simp
qed

theorem video_quality_bonus_bands_witness:
  "\<not> has_video post1
   \<and> video_quality_bonus post1 = 0.0
   \<and> (has_video post4 \<and> video_duration_sec post4 = Some (Finite 45) \<and> (15::real) \<le> 45 \<and> (45::real) \<le> 60)
   \<and> video_quality_bonus post4 = 0.5
   \<and> (has_video post6 \<and> video_duration_sec post6 = Some (Finite 120)
        \<and> ((5::real) \<le> 120 \<and> (120::real) < 15 \<or> (60::real) < 120 \<and> (120::real) \<le> 180))
   \<and> video_quality_bonus post6 = 0.3
   \<and> (has_video (post6\<lparr>video_duration_sec := Some (Finite 181)\<rparr>)
        \<and> video_duration_sec (post6\<lparr>video_duration_sec := Some (Finite 181)\<rparr>) = Some (Finite 181)
        \<and> ((181::real) < 5 \<or> (180::real) < 181))
   \<and> video_quality_bonus (post6\<lparr>video_duration_sec := Some (Finite 181)\<rparr>) = 0.1"
  using video_quality_bonus_bands
          [of post1 post4 45 post6 120 "post6\<lparr>video_duration_sec := Some (Finite 181)\<rparr>" 181 post1 None]
  by (simp add: post1_def post4_def post6_def)

text \<open>
  C6 as stated fails: an item with video and a negative, infinite or NaN duration is not
  treated as an item of unknown duration; its bonus is not 0.
\<close>

theorem video_quality_bonus_malformed_counterexample:
  "video_quality_bonus (post4\<lparr>video_duration_sec := Some (Finite (- 1))\<rparr>) \<noteq> 0.0
   \<and> video_quality_bonus (post4\<lparr>video_duration_sec := Some NaN\<rparr>) \<noteq> 0.0
   \<and> video_quality_bonus (post4\<lparr>video_duration_sec := Some PosInf\<rparr>) \<noteq> 0.0"
  by (simp add: video_quality_bonus_def post4_def)

text \<open>
  C6, amended. For an item with video whose duration is present but negative, infinite
  or NaN, the bonus is a value (nothing is raised) and it is 0.1, the bonus of the last
  band; only an item without video or without a duration gets 0.
\<close>

theorem video_quality_bonus_malformed:
  assumes "has_video p"
    and "video_duration_sec p = Some d"
    and "d = NaN \<or> d = PosInf \<or> d = NegInf \<or> (\<exists>x. d = Finite x \<and> x < 0)"
  shows "video_quality_bonus p = 0.1"
  using assms by (auto simp add: video_quality_bonus_def)

theorem video_quality_bonus_malformed_witness:
  "has_video (post4\<lparr>video_duration_sec := Some (Finite (- 1))\<rparr>)
   \<and> video_duration_sec (post4\<lparr>video_duration_sec := Some (Finite (- 1))\<rparr>) = Some (Finite (- 1))
   \<and> (Finite (- 1) = NaN \<or> Finite (- 1) = PosInf \<or> Finite (- 1) = NegInf
        \<or> (\<exists>x. Finite (- 1) = Finite x \<and> x < 0))
   \<and> video_quality_bonus (post4\<lparr>video_duration_sec := Some (Finite (- 1))\<rparr>) = 0.1"
proof -
  have h1: "has_video (post4\<lparr>video_duration_sec := Some (Finite (- 1))\<rparr>)"
    by (simp add: post4_def)
  have h2: "video_duration_sec (post4\<lparr>video_duration_sec := Some (Finite (- 1))\<rparr>) = Some (Finite (- 1))"
    by simp
  have h3: "Finite (- 1) = NaN \<or> Finite (- 1) = PosInf \<or> Finite (- 1) = NegInf
        \<or> (\<exists>x. Finite (- 1) = Finite x \<and> x < 0)"
    by simp
  from video_quality_bonus_malformed [OF h1 h2 h3] h1 h2 h3 show ?thesis
    by blast
qed

section \<open>The float power\<close>

lemma one_less_float_overflow: "1 < float_overflow"
  by (simp add: float_overflow_def)

lemma no_overflow_small: "\<bar>f\<bar> \<le> 1 \<Longrightarrow> \<not> float_overflow \<le> \<bar>f ^ k\<bar>"
proof -
  assume "\<bar>f\<bar> \<le> 1"
  then have "\<bar>f\<bar> ^ k \<le> 1"
    by (simp add: power_le_one)
  then have "\<bar>f ^ k\<bar> \<le> 1"
    by (simp only: power_abs)
  then have "\<bar>f ^ k\<bar> < float_overflow"
    using one_less_float_overflow by linarith
  then show ?thesis
    by simp
qed

lemma float_pow_small: "\<bar>x\<bar> \<le> 1 \<Longrightarrow> float_pow x n = Inr (x ^ n)"
  by (simp add: float_pow_def no_overflow_small)

text \<open>The two overflows nearest to hand: 2.0 ** 1024, and 1e200 ** 2.\<close>

lemma float_pow_examples:
  "float_pow 2 1023 = Inr (2 ^ 1023)"
  "float_pow 2 1024 = Inl OverflowError"
  "float_pow (10 ^ 200) 1 = Inr (10 ^ 200)"
  "float_pow (10 ^ 200) 2 = Inl OverflowError"
  by (simp_all add: float_pow_def float_overflow_def)

section \<open>The decay loop\<close>

lemma dict_get_upd: "dict_get (m(k \<mapsto> v)) k' d = (if k' = k then v else dict_get m k' d)"
  by (simp add: dict_get_def)

lemma dict_get_empty: "dict_get Map.empty k d = d"
  by (simp add: dict_get_def)

lemma earlier_same_author_0: "earlier_same_author xs 0 = 0"
  by (simp add: earlier_same_author_def)

lemma earlier_same_author_Suc:
  "earlier_same_author (x # xs) (Suc i) =
     (if author_id (fst x) = author_id (fst (xs ! i)) then 1 else 0) + earlier_same_author xs i"
  by (simp add: earlier_same_author_def)

lemma upt_length_Cons: "[0..<length (x # xs)] = 0 # map Suc [0..<length xs]"
  by (simp add: upt_conv_Cons map_Suc_upt del: upt_Suc)

lemma ex_less_length_Cons:
  "(\<exists>i<length (x # xs). P i) \<longleftrightarrow> P 0 \<or> (\<exists>i<length xs. P (Suc i))"
  by (auto simp add: less_Suc_eq_0_disj)

text \<open>
  The loop invariant, read off at the end. The loop raises exactly when a power it needs
  overflows; otherwise it returns what was accumulated, then for each remaining position
  the score times the factor to the count the dict holds for the author plus the
  occurrences met since.
\<close>

lemma decay_loop_eq:
  "decay_loop f xs counts acc =
     (if \<exists>i<length xs. float_overflow
            \<le> \<bar>f ^ (dict_get counts (author_id (fst (xs ! i))) 0 + earlier_same_author xs i)\<bar>
      then Inl OverflowError
      else Inr (acc @ map (\<lambda>i. (fst (xs ! i),
                      snd (xs ! i) * f ^ (dict_get counts (author_id (fst (xs ! i))) 0
                                          + earlier_same_author xs i)))
             [0..<length xs]))"
proof (induction xs arbitrary: counts acc)
  case Nil
  then show ?case by simp
next
  case (Cons x xs)
  obtain post score where x: "x = (post, score)" by (cases x)
  let ?c = "dict_get counts (author_id post) 0"
  let ?counts' = "counts(author_id post \<mapsto> ?c + 1)"
  show ?case
  proof (cases "float_overflow \<le> \<bar>f ^ ?c\<bar>")
    case True
    then have "decay_loop f (x # xs) counts acc = Inl OverflowError"
      by (simp add: x Let_def float_pow_def)
    moreover have "\<exists>i<length (x # xs). float_overflow
            \<le> \<bar>f ^ (dict_get counts (author_id (fst ((x # xs) ! i))) 0
                    + earlier_same_author (x # xs) i)\<bar>"
      unfolding ex_less_length_Cons using True by (simp add: x earlier_same_author_0)
    ultimately show ?thesis by simp
  next
    case False
    then have step: "decay_loop f ((post, score) # xs) counts acc =
        decay_loop f xs ?counts' (acc @ [(post, score * f ^ ?c)])"
      by (simp add: Let_def float_pow_def)
    have expo: "dict_get counts (author_id (fst (xs ! i))) 0
          + earlier_same_author ((post, score) # xs) (Suc i) =
        dict_get ?counts' (author_id (fst (xs ! i))) 0 + earlier_same_author xs i" for i
      by (simp add: dict_get_upd earlier_same_author_Suc)
    show ?thesis
      unfolding x step Cons.IH upt_length_Cons ex_less_length_Cons
      using False
      by (simp add: expo earlier_same_author_0 comp_def)
  qed
qed

lemma apply_author_diversity_decay_eq:
  "apply_author_diversity_decay xs f =
     (if \<exists>i<length xs. float_overflow \<le> \<bar>f ^ earlier_same_author xs i\<bar>
      then Inl OverflowError else Inr (DiversityDecay xs f))"
  by (simp add: apply_author_diversity_decay_def DiversityDecay_def decay_loop_eq dict_get_empty)

lemma apply_author_diversity_decay_small:
  "\<bar>f\<bar> \<le> 1 \<Longrightarrow> apply_author_diversity_decay xs f = Inr (DiversityDecay xs f)"
  by (simp add: apply_author_diversity_decay_eq no_overflow_small)

lemma apply_author_diversity_decay_default:
  "apply_author_diversity_decay xs default_decay_factor = Inr (DiversityDecay xs default_decay_factor)"
  by (rule apply_author_diversity_decay_small) (simp add: default_decay_factor_def)

lemma length_DiversityDecay: "length (DiversityDecay xs f) = length xs"
  by (simp add: DiversityDecay_def)

lemma map_fst_DiversityDecay: "map fst (DiversityDecay xs f) = map fst xs"
  by (rule nth_equalityI) (simp_all add: DiversityDecay_def)

lemma nth_DiversityDecay:
  "i < length xs \<Longrightarrow>
   DiversityDecay xs f ! i = (fst (xs ! i), snd (xs ! i) * f ^ earlier_same_author xs i)"
  by (simp add: DiversityDecay_def)

lemma earlier_same_author_distinct:
  assumes "distinct (map (\<lambda>x. author_id (fst x)) xs)" and "i < length xs"
  shows "earlier_same_author xs i = 0"
proof -
  have "\<not> author_id (fst x) = author_id (fst (xs ! i))" if "x \<in> set (take i xs)" for x
  proof -
    from that obtain j where j: "j < length (take i xs)" and x: "x = take i xs ! j"
      by (auto simp add: in_set_conv_nth)
    from j assms(2) have ji: "j < i" and jl: "j < length xs"
      by simp_all
    from x ji have xj: "x = xs ! j" by simp
    have "map (\<lambda>x. author_id (fst x)) xs ! j \<noteq> map (\<lambda>x. author_id (fst x)) xs ! i"
      using assms ji jl by (simp add: nth_eq_iff_index_eq del: nth_map)
    then show ?thesis
      using jl assms(2) by (simp add: xj)
  qed
  then have "filter (\<lambda>x. author_id (fst x) = author_id (fst (xs ! i))) (take i xs) = []"
    by (simp add: filter_empty_conv)
  then show ?thesis
    by (simp add: earlier_same_author_def)
qed

lemma DiversityDecay_distinct:
  assumes "distinct (map (\<lambda>x. author_id (fst x)) xs)"
  shows "DiversityDecay xs f = xs"
  by (rule nth_equalityI)
     (simp_all add: DiversityDecay_def earlier_same_author_distinct [OF assms])

text \<open>
  C1 as stated fails: not every factor gives a sequence. With the factor 1e200 and three
  items of one author, the power for the third item, 1e200 ** 2, overflows, and the call
  raises OverflowError.
\<close>

theorem apply_author_diversity_decay_overflow_counterexample:
  "apply_author_diversity_decay [(post1, 1.0), (post2, 1.0), (post1, 1.0)] (10 ^ 200) =
     Inl OverflowError"
  by (simp add: apply_author_diversity_decay_def dict_get_def Let_def post1_def post2_def
      float_pow_def float_overflow_def)

text \<open>
  C1, amended. For every sequence of (item, score) pairs and every factor for which no
  power factor^k of the pass overflows a double (so for every factor of absolute value
  at most 1), \<^verbatim>\<open>apply_author_diversity_decay\<close> returns a sequence of the length of the input,
  with the same items in the same order, where the pair at position \<open>i\<close> holds the item of
  position \<open>i\<close> with its score times factor^k, \<open>k\<close> being the number of strictly earlier
  items of the same author. If some power of the pass overflows, the call raises
  OverflowError. The function is the single left-to-right loop \<open>decay_loop\<close>.
\<close>

theorem apply_author_diversity_decay_positions:
  "((\<forall>i<length xs. \<bar>f ^ earlier_same_author xs i\<bar> < float_overflow) \<longrightarrow>
      (\<exists>ys. apply_author_diversity_decay xs f = Inr ys
         \<and> length ys = length xs
         \<and> map fst ys = map fst xs
         \<and> (\<forall>i<length xs.
               ys ! i = (fst (xs ! i), snd (xs ! i) * f ^ earlier_same_author xs i))))
   \<and> ((\<exists>i<length xs. float_overflow \<le> \<bar>f ^ earlier_same_author xs i\<bar>) \<longrightarrow>
        apply_author_diversity_decay xs f = Inl OverflowError)
   \<and> (\<bar>f\<bar> \<le> 1 \<longrightarrow> (\<forall>i<length xs. \<bar>f ^ earlier_same_author xs i\<bar> < float_overflow))
   \<and> (\<forall>i. earlier_same_author xs i =
          length (filter (\<lambda>x. author_id (fst x) = author_id (fst (xs ! i))) (take i xs)))"
proof -
  have a: "(\<forall>i<length xs. \<bar>f ^ earlier_same_author xs i\<bar> < float_overflow) \<longrightarrow>
      (\<exists>ys. apply_author_diversity_decay xs f = Inr ys
         \<and> length ys = length xs
         \<and> map fst ys = map fst xs
         \<and> (\<forall>i<length xs.
               ys ! i = (fst (xs ! i), snd (xs ! i) * f ^ earlier_same_author xs i)))"
  proof
    assume "\<forall>i<length xs. \<bar>f ^ earlier_same_author xs i\<bar> < float_overflow"
    then have "\<not> (\<exists>i<length xs. float_overflow \<le> \<bar>f ^ earlier_same_author xs i\<bar>)"
      by (simp add: not_le)
    then have "apply_author_diversity_decay xs f = Inr (DiversityDecay xs f)"
      by (simp only: apply_author_diversity_decay_eq if_False)
    then show "\<exists>ys. apply_author_diversity_decay xs f = Inr ys
         \<and> length ys = length xs
         \<and> map fst ys = map fst xs
         \<and> (\<forall>i<length xs.
               ys ! i = (fst (xs ! i), snd (xs ! i) * f ^ earlier_same_author xs i))"
      by (simp add: length_DiversityDecay map_fst_DiversityDecay nth_DiversityDecay)
  qed
  have b: "(\<exists>i<length xs. float_overflow \<le> \<bar>f ^ earlier_same_author xs i\<bar>) \<longrightarrow>
        apply_author_diversity_decay xs f = Inl OverflowError"
    by (simp add: apply_author_diversity_decay_eq)
  have c: "\<bar>f\<bar> \<le> 1 \<longrightarrow> (\<forall>i<length xs. \<bar>f ^ earlier_same_author xs i\<bar> < float_overflow)"
    using no_overflow_small [of f] by (simp add: not_le)
  have d: "\<forall>i. earlier_same_author xs i =
          length (filter (\<lambda>x. author_id (fst x) = author_id (fst (xs ! i))) (take i xs))"
    by (simp add: earlier_same_author_def)
  from a b c d show ?thesis
    by blast
qed

theorem apply_author_diversity_decay_positions_witness:
  "\<bar>0.7::real\<bar> \<le> 1
   \<and> (\<exists>ys. apply_author_diversity_decay [(post1, 2.0), (post3, 1.9), (post2, 1.8)] 0.7 = Inr ys
         \<and> length ys = 3 \<and> ys ! 2 = (post2, 1.26))
   \<and> (\<exists>i<length [(post1, 1.0::real), (post2, 1.0), (post1, 1.0)].
         float_overflow \<le> \<bar>(2 ^ 600) ^ earlier_same_author [(post1, 1.0::real), (post2, 1.0), (post1, 1.0)] i\<bar>)
   \<and> apply_author_diversity_decay [(post1, 1.0), (post2, 1.0), (post1, 1.0)] (2 ^ 600) =
        Inl OverflowError"
proof -
  let ?xs = "[(post1, 2.0::real), (post3, 1.9), (post2, 1.8)]"
  let ?zs = "[(post1, 1.0::real), (post2, 1.0), (post1, 1.0)]"
  note t1 = apply_author_diversity_decay_positions [of ?xs "0.7"]
  note t2 = apply_author_diversity_decay_positions [of ?zs "2 ^ 600"]
  have small: "\<bar>0.7::real\<bar> \<le> 1"
    by simp
  with t1 have "\<forall>i<length ?xs. \<bar>(0.7::real) ^ earlier_same_author ?xs i\<bar> < float_overflow"
    by blast
  with t1 obtain ys where ys: "apply_author_diversity_decay ?xs 0.7 = Inr ys"
    and len: "length ys = length ?xs"
    and pos: "\<forall>i<length ?xs.
               ys ! i = (fst (?xs ! i), snd (?xs ! i) * 0.7 ^ earlier_same_author ?xs i)"
    by blast
  have k: "earlier_same_author ?xs 2 = 1"
    by (simp add: earlier_same_author_def post1_def post2_def post3_def numeral_2_eq_2)
  have "(2::nat) < length ?xs"
    by simp
  with pos have "ys ! 2 = (fst (?xs ! 2), snd (?xs ! 2) * 0.7 ^ earlier_same_author ?xs 2)"
    by blast
  then have "ys ! 2 = (fst (?xs ! 2), snd (?xs ! 2) * 0.7 ^ 1)"
    by (simp only: k)
  then have y2: "ys ! 2 = (post2, 1.26)"
    by simp
  have k2: "earlier_same_author ?zs 2 = 2"
    by (simp add: earlier_same_author_def post1_def post2_def numeral_2_eq_2)
  have "float_overflow \<le> \<bar>((2::real) ^ 600) ^ earlier_same_author ?zs 2\<bar>"
    unfolding k2 by (simp add: float_overflow_def)
  then have ex: "\<exists>i<length ?zs. float_overflow \<le> \<bar>((2::real) ^ 600) ^ earlier_same_author ?zs i\<bar>"
    by (intro exI [of _ 2]) simp
  with t2 have "apply_author_diversity_decay ?zs (2 ^ 600) = Inl OverflowError"
    by blast
  with small ys len y2 ex show ?thesis
    by simp
qed

section \<open>The weighted scorer and its table\<close>

lemma all_actions_complete: "a \<in> set all_actions" and all_actions_distinct: "distinct all_actions"
  by (cases a) (simp_all add: all_actions_def)

lemma field_value_action: "field_value pv (action_name k) = Some (prediction_vector pv k)"
  by (cases k) (simp_all add: field_value_def)

lemma getattr_action: "getattr attrs pv (action_name k) = Inr (Number (prediction_vector pv k))"
  by (simp add: getattr_def field_value_action)

text \<open>On a table whose keys are names of actions, the loop adds up the entries present.\<close>

lemma weighted_loop_actions:
  "weighted_loop attrs (map (\<lambda>(k, w). (action_name k, w)) entries) pv acc =
     Inr (acc + sum_list (map (\<lambda>(k, w). w * prediction_vector pv k) entries))"
proof (induction entries arbitrary: acc)
  case Nil
  then show ?case by simp
next
  case (Cons e entries)
  obtain k w where e: "e = (k, w)" by (cases e)
  show ?case
    by (simp add: e getattr_action Cons.IH)
qed

text \<open>
  The keys of \<open>ACTION_WEIGHTS\<close> are the names of the 15 actions, so the other attributes of
  the object play no part in \<open>compute_weighted_score\<close>.
\<close>

lemma compute_weighted_score_attrs:
  "compute_weighted_score_with attrs ACTION_WEIGHTS pv =
     Inr (WeightedScorer (prediction_vector pv) (weight_in ACTION_WEIGHTS))"
  by (simp add: compute_weighted_score_with_def ACTION_WEIGHTS_def
      getattr_def field_value_def WeightedScorer_def all_actions_def weight_in_def)

lemma compute_weighted_score_eq:
  "compute_weighted_score pv = Inr (WeightedScorer (prediction_vector pv) (weight_in ACTION_WEIGHTS))"
  by (simp add: compute_weighted_score_def compute_weighted_score_attrs)

lemma drop_weight:
  "compute_weighted_score_with attrs (filter (\<lambda>(a, w). a \<noteq> action_name k) ACTION_WEIGHTS) pv =
     Inr (WeightedScorer (prediction_vector pv) (weight_in ACTION_WEIGHTS)
            - weight_in ACTION_WEIGHTS k * prediction_vector pv k)"
  by (cases k)
     (simp_all add: compute_weighted_score_with_def ACTION_WEIGHTS_def
        getattr_def field_value_def WeightedScorer_def all_actions_def weight_in_def)

text \<open>
  A key of the table that is not a field: a name the object does not have raises
  AttributeError, and a name of another attribute, such as the docstring, raises TypeError
  at the product.
\<close>

lemma weight_key_not_a_field:
  "compute_weighted_score_with object_attrs [(''favourite'', 1.0)] pv =
     Inl (AttributeError ''favourite'')"
  "compute_weighted_score_with object_attrs [(''__doc__'', 1.0)] pv = Inl TypeError"
  by (simp_all add: compute_weighted_score_with_def getattr_def field_value_def object_attrs_def)

text \<open>
  C4 as stated fails: with the entry of \<^verbatim>\<open>report\<close> taken out of the weight table and a
  prediction vector whose \<^verbatim>\<open>report\<close> probability is 0.9, scoring raises nothing; it returns
  the sum over the remaining entries.
\<close>

theorem missing_weight_counterexample:
  "compute_weighted_score_with object_attrs (filter (\<lambda>(a, w). a \<noteq> ''report'') ACTION_WEIGHTS)
     (default_predictions\<lparr>favorite := 0.5, report := 0.9\<rparr>) = Inr 0.5"
  by (simp add: compute_weighted_score_with_def ACTION_WEIGHTS_def getattr_def field_value_def
      default_predictions_def)

text \<open>
  C4, amended. Scoring sums weight times probability over the entries of the weight
  table and never checks the table against the prediction vector. An action of the
  prediction vector without an entry raises nothing and is left out of the sum: on any
  table whose keys are names of actions, complete or not, the score is the sum over the
  entries present, and taking the entry of action \<open>k\<close> out of the table of the code takes
  its term out of the score. The table of the code has exactly one entry for each of the
  15 actions, in their order, so with it scoring never fails and is the full weighted
  sum.
\<close>

theorem weight_table_coverage:
  "compute_weighted_score_with attrs (map (\<lambda>(k, w). (action_name k, w)) entries) pv =
       Inr (sum_list (map (\<lambda>(k, w). w * prediction_vector pv k) entries))
   \<and> compute_weighted_score_with attrs (filter (\<lambda>(a, w). a \<noteq> action_name k) ACTION_WEIGHTS) pv =
       Inr (WeightedScorer (prediction_vector pv) (weight_in ACTION_WEIGHTS)
              - weight_in ACTION_WEIGHTS k * prediction_vector pv k)
   \<and> map fst ACTION_WEIGHTS = map action_name all_actions
   \<and> compute_weighted_score_with attrs ACTION_WEIGHTS pv =
       Inr (WeightedScorer (prediction_vector pv) (weight_in ACTION_WEIGHTS))
   \<and> compute_weighted_score pv =
       Inr (WeightedScorer (prediction_vector pv) (weight_in ACTION_WEIGHTS))"
proof -
  have "map fst ACTION_WEIGHTS = map action_name all_actions"
    by (simp add: ACTION_WEIGHTS_def all_actions_def)
  then show ?thesis
    using weighted_loop_actions [of attrs entries pv 0] drop_weight [of attrs k pv]
      compute_weighted_score_attrs [of attrs pv] compute_weighted_score_eq [of pv]
    by (simp add: compute_weighted_score_with_def)
qed

theorem weight_table_coverage_witness:
  "compute_weighted_score_with object_attrs [(''favorite'', 1.0), (''reply'', 2.0)]
        (default_predictions\<lparr>favorite := 0.5, reply := 0.1, report := 0.9\<rparr>) = Inr 0.7
   \<and> compute_weighted_score_with object_attrs
        (filter (\<lambda>(a, w). a \<noteq> ''report'') ACTION_WEIGHTS)
        (default_predictions\<lparr>favorite := 0.5, report := 0.9\<rparr>) = Inr 0.5
   \<and> compute_weighted_score (default_predictions\<lparr>favorite := 0.5, report := 0.9\<rparr>) = Inr (- 13)"
proof -
  let ?pv = "default_predictions\<lparr>favorite := 0.5, report := 0.9\<rparr>"
  let ?pv' = "default_predictions\<lparr>favorite := 0.5, reply := 0.1, report := 0.9\<rparr>"
  have a: "compute_weighted_score_with object_attrs [(''favorite'', 1.0), (''reply'', 2.0)] ?pv' =
      Inr 0.7"
    using weight_table_coverage [of object_attrs "[(Favorite, 1.0), (Reply, 2.0)]" ?pv',
        THEN conjunct1]
    by (simp add: default_predictions_def)
  have b: "compute_weighted_score_with object_attrs
        (filter (\<lambda>(a, w). a \<noteq> ''report'') ACTION_WEIGHTS) ?pv = Inr 0.5"
    using weight_table_coverage [of object_attrs "[]" ?pv Report, THEN conjunct2, THEN conjunct1]
    by (simp add: WeightedScorer_def all_actions_def weight_in_def ACTION_WEIGHTS_def
        default_predictions_def)
  have c: "compute_weighted_score ?pv = Inr (- 13)"
    using weight_table_coverage [of object_attrs "[]" ?pv Report,
        THEN conjunct2, THEN conjunct2, THEN conjunct2, THEN conjunct2]
    by (simp add: WeightedScorer_def all_actions_def weight_in_def ACTION_WEIGHTS_def
        default_predictions_def)
  from a b c show ?thesis
    by blast
qed

section \<open>The sort\<close>

lemma sort_desc_stable: "filter (\<lambda>x. k x = c) (sort_desc k xs) = filter (\<lambda>x. k x = c) xs"
  using sort_key_stable [of "\<lambda>x. - k x" "- c" xs] by (simp add: sort_desc_def)

lemma sort_desc_sorted: "sorted_wrt (\<ge>) (map k (sort_desc k xs))"
proof -
  have "sorted (map (\<lambda>x. - k x) (sort_desc k xs))"
    unfolding sort_desc_def by (rule sorted_sort_key)
  then show ?thesis
    by (simp add: sorted_wrt_map)
qed

lemma mset_sort_desc: "mset (sort_desc k xs) = mset xs"
  by (simp add: sort_desc_def)

lemma mset_map_sort_desc: "mset (map h (sort_desc k xs)) = mset (map h xs)"
  by (simp add: sort_desc_def)

lemma score_of_eq: "score_of = (\<lambda>(item, s, pv). s)"
  by (simp add: fun_eq_iff score_of_def)

section \<open>The pipeline and its stages\<close>

lemma score_loop_eq:
  "score_loop predict posts fol g acc =
     Inr (acc @ scored_items predict fol posts g, snd (predictions_for predict fol posts g))"
proof (induction posts arbitrary: g acc)
  case Nil
  then show ?case by (simp add: scored_items_def)
next
  case (Cons post posts)
  obtain pv g' where p: "predict post (author_id post \<in> fol) g = (pv, g')"
    by (cases "predict post (author_id post \<in> fol) g")
  obtain pvs g'' where ps: "predictions_for predict fol posts g' = (pvs, g'')"
    by (cases "predictions_for predict fol posts g'")
  show ?case
    using ps by (simp add: p Cons.IH compute_weighted_score_eq Let_def scored_items_def)
qed

text \<open>The index of the rebuild is always in range, so the rebuild never raises.\<close>

lemma rebuild_loop_eq:
  "n + length adj \<le> length scored_posts \<Longrightarrow>
   rebuild_loop (enumerate n adj) scored_posts acc =
     Inr (acc @ map (\<lambda>(i, (p, s)). (p, s, snd (snd (scored_posts ! i)))) (enumerate n adj))"
proof (induction adj arbitrary: n acc)
  case Nil
  then show ?case by simp
next
  case (Cons a adj)
  obtain p s where a: "a = (p, s)" by (cases a)
  from Cons.prems have n: "n < length scored_posts"
    and rest: "Suc n + length adj \<le> length scored_posts"
    by simp_all
  show ?case
    using n by (simp add: a Cons.IH [OF rest] split: prod.splits)
qed

lemma earlier_same_author_map:
  "i < length xs \<Longrightarrow> (\<And>x. fst (h x) = fst x) \<Longrightarrow>
   earlier_same_author (map h xs) i = earlier_same_author xs i"
  by (simp add: earlier_same_author_def take_map filter_map comp_def)

lemma rebuild_decay:
  "map (\<lambda>(i, (p, s)). (p, s, snd (snd (scored_posts ! i))))
     (enumerate 0 (DiversityDecay (map (\<lambda>(p, s, _). (p, s)) scored_posts) f)) =
   decay_scored scored_posts f"
proof (rule nth_equalityI)
  show "length (map (\<lambda>(i, (p, s)). (p, s, snd (snd (scored_posts ! i))))
     (enumerate 0 (DiversityDecay (map (\<lambda>(p, s, _). (p, s)) scored_posts) f))) =
     length (decay_scored scored_posts f)"
    by (simp add: DiversityDecay_def decay_scored_def)
next
  fix i
  assume "i < length (map (\<lambda>(i, (p, s)). (p, s, snd (snd (scored_posts ! i))))
     (enumerate 0 (DiversityDecay (map (\<lambda>(p, s, _). (p, s)) scored_posts) f)))"
  then have i: "i < length scored_posts"
    by (simp add: DiversityDecay_def)
  have e: "earlier_same_author (map (\<lambda>(p, s, _). (p, s)) scored_posts) i =
      earlier_same_author scored_posts i"
    by (rule earlier_same_author_map [OF i]) (simp add: split_beta)
  show "map (\<lambda>(i, (p, s)). (p, s, snd (snd (scored_posts ! i))))
     (enumerate 0 (DiversityDecay (map (\<lambda>(p, s, _). (p, s)) scored_posts) f)) ! i =
     decay_scored scored_posts f ! i"
    using i by (simp add: DiversityDecay_def decay_scored_def nth_enumerate_eq e split_beta)
qed

lemma rank_posts_with_eq:
  "rank_posts_with predict posts fol g =
     Inr (rank_spec predict fol posts g, snd (predictions_for predict fol posts g))"
proof -
  let ?sorted = "sort_desc score_of (scored_items predict fol posts g)"
  have len: "0 + length (DiversityDecay (map (\<lambda>(p, s, _). (p, s)) ?sorted) default_decay_factor)
      \<le> length ?sorted"
    by (simp add: length_DiversityDecay)
  show ?thesis
    by (simp add: rank_posts_with_def score_loop_eq apply_author_diversity_decay_default Let_def
        rebuild_loop_eq [OF len] rebuild_decay rank_spec_def decayed_items_def pre_decay_order_def)
qed

lemma weighted_sum_expanded:
  "(\<Sum>a\<leftarrow>all_actions. weight_in ACTION_WEIGHTS a * prediction_vector pv a) =
     1.0 * favorite pv + 2.0 * reply pv + 1.5 * repost pv + 2.5 * quote pv + 0.5 * click pv
     + 0.3 * profile_click pv + 0.8 * video_view pv + 0.3 * photo_expand pv + 1.5 * share pv
     + 0.2 * dwell pv + 3.0 * follow_author pv - 5.0 * not_interested pv
     - 10.0 * block_author pv - 8.0 * mute_author pv - 15.0 * report pv"
  by (simp add: all_actions_def weight_in_def ACTION_WEIGHTS_def)

text \<open>
  C2. \<^verbatim>\<open>rank_posts\<close> returns, without raising, a result \<open>res\<close> reached through these stages:
  \<open>scored\<close>, the items in input order, each with the prediction vector of the predictor
  (one call per item) and the score that is the sum over all ActionKind of weight times
  probability plus the video bonus of the item; \<open>ranked\<close>, the stable sort of \<open>scored\<close>, which
  has the elements of \<open>scored\<close> in descending order of score; \<open>decayed\<close>, where the item at
  position \<open>i\<close> of \<open>ranked\<close> has its score multiplied by 0.7^k, \<open>k\<close> counting the earlier items
  of \<open>ranked\<close> by the same author; and \<open>res\<close>, the stable sort of \<open>decayed\<close>, which has the
  elements of \<open>decayed\<close> in descending order of score.
\<close>

theorem rank_posts_steps:
  "(\<exists>scored ranked decayed res g'.
      rank_posts rnd posts fol g = Inr (res, g')
      \<and> g' = snd (predictions_for (simulate_phoenix_predictions rnd) fol posts g)
      \<and> scored =
          map (\<lambda>(item, pv).
                 (item,
                  (\<Sum>a\<leftarrow>all_actions. weight_in ACTION_WEIGHTS a * prediction_vector pv a)
                    + video_quality_bonus item,
                  pv))
            (zip posts (fst (predictions_for (simulate_phoenix_predictions rnd) fol posts g)))
      \<and> ranked = sort_desc score_of scored
      \<and> mset ranked = mset scored
      \<and> sorted_wrt (\<ge>) (map (\<lambda>(item, s, pv). s) ranked)
      \<and> decayed =
          map (\<lambda>i. case ranked ! i of
                     (item, s, pv) \<Rightarrow>
                       (item,
                        s * 0.7 ^ length (filter (\<lambda>x. author_id (fst x) = author_id (fst (ranked ! i)))
                                           (take i ranked)),
                        pv))
            [0..<length ranked]
      \<and> res = sort_desc score_of decayed
      \<and> mset res = mset decayed
      \<and> sorted_wrt (\<ge>) (map (\<lambda>(item, s, pv). s) res))
   \<and> (\<Sum>a\<leftarrow>all_actions. weight_in ACTION_WEIGHTS a * prediction_vector pv a) =
       1.0 * favorite pv + 2.0 * reply pv + 1.5 * repost pv + 2.5 * quote pv + 0.5 * click pv
       + 0.3 * profile_click pv + 0.8 * video_view pv + 0.3 * photo_expand pv + 1.5 * share pv
       + 0.2 * dwell pv + 3.0 * follow_author pv - 5.0 * not_interested pv
       - 10.0 * block_author pv - 8.0 * mute_author pv - 15.0 * report pv"
proof -
  let ?P = "simulate_phoenix_predictions rnd"
  let ?scored = "scored_items ?P fol posts g"
  let ?ranked = "sort_desc score_of ?scored"
  let ?decayed = "decay_scored ?ranked default_decay_factor"
  let ?res = "sort_desc score_of ?decayed"
  have run: "rank_posts rnd posts fol g = Inr (?res, snd (predictions_for ?P fol posts g))"
    by (simp add: rank_posts_def rank_posts_with_eq rank_spec_def decayed_items_def
        pre_decay_order_def)
  have scored: "?scored =
          map (\<lambda>(item, pv).
                 (item,
                  (\<Sum>a\<leftarrow>all_actions. weight_in ACTION_WEIGHTS a * prediction_vector pv a)
                    + video_quality_bonus item,
                  pv))
            (zip posts (fst (predictions_for ?P fol posts g)))"
    by (simp add: scored_items_def WeightedScorer_def)
  have ranked_sorted: "sorted_wrt (\<ge>) (map (\<lambda>(item, s, pv). s) ?ranked)"
    using sort_desc_sorted [of score_of ?scored] by (simp only: score_of_eq)
  have decayed: "?decayed =
          map (\<lambda>i. case ?ranked ! i of
                     (item, s, pv) \<Rightarrow>
                       (item,
                        s * 0.7 ^ length (filter (\<lambda>x. author_id (fst x) = author_id (fst (?ranked ! i)))
                                           (take i ?ranked)),
                        pv))
            [0..<length ?ranked]"
    by (simp add: decay_scored_def earlier_same_author_def default_decay_factor_def)
  have res_sorted: "sorted_wrt (\<ge>) (map (\<lambda>(item, s, pv). s) ?res)"
    using sort_desc_sorted [of score_of ?decayed] by (simp only: score_of_eq)
  have "\<exists>scored ranked decayed res g'.
      rank_posts rnd posts fol g = Inr (res, g')
      \<and> g' = snd (predictions_for ?P fol posts g)
      \<and> scored =
          map (\<lambda>(item, pv).
                 (item,
                  (\<Sum>a\<leftarrow>all_actions. weight_in ACTION_WEIGHTS a * prediction_vector pv a)
                    + video_quality_bonus item,
                  pv))
            (zip posts (fst (predictions_for ?P fol posts g)))
      \<and> ranked = sort_desc score_of scored
      \<and> mset ranked = mset scored
      \<and> sorted_wrt (\<ge>) (map (\<lambda>(item, s, pv). s) ranked)
      \<and> decayed =
          map (\<lambda>i. case ranked ! i of
                     (item, s, pv) \<Rightarrow>
                       (item,
                        s * 0.7 ^ length (filter (\<lambda>x. author_id (fst x) = author_id (fst (ranked ! i)))
                                           (take i ranked)),
                        pv))
            [0..<length ranked]
      \<and> res = sort_desc score_of decayed
      \<and> mset res = mset decayed
      \<and> sorted_wrt (\<ge>) (map (\<lambda>(item, s, pv). s) res)"
    apply (rule exI [of _ ?scored])
    apply (rule exI [of _ ?ranked])
    apply (rule exI [of _ ?decayed])
    apply (rule exI [of _ ?res])
    apply (rule exI [of _ "snd (predictions_for ?P fol posts g)"])
    apply (intro conjI)
             apply (rule run)
            apply (rule refl)
           apply (rule scored)
          apply (rule refl)
         apply (rule mset_sort_desc)
        apply (rule ranked_sorted)
       apply (rule decayed)
      apply (rule refl)
     apply (rule mset_sort_desc)
    apply (rule res_sorted)
    done
  then show ?thesis
    using weighted_sum_expanded [of pv] by blast
qed

text \<open>
  C7 as stated fails: the decay validates nothing. With the factor 2, outside (0, 1],
  the function returns, and the second item of the author has its score doubled.
\<close>

theorem decay_factor_unvalidated_counterexample:
  "apply_author_diversity_decay [(post1, 1.0), (post2, 1.0)] 2.0 =
     Inr [(post1, 1.0), (post2, 2.0)]"
  by (simp add: apply_author_diversity_decay_def dict_get_def Let_def post1_def post2_def
      float_pow_def float_overflow_def)

text \<open>
  C7, amended. No factor is validated, by the decay or by the pipeline. For every
  factor, in (0, 1] or not, the outcome of \<^verbatim>\<open>apply_author_diversity_decay\<close> depends only on
  whether a power factor^k of the pass overflows a double: if none does, the factor is
  applied and the decayed sequence returned; otherwise the call ends with the
  OverflowError of the power. No power overflows when the factor has absolute value at
  most 1 (so 0 and negative factors down to -1 are applied), nor, for any factor at
  all, when no author occurs twice (the sequence is then returned unchanged).
  \<^verbatim>\<open>rank_posts\<close> takes no factor: it always runs the decay with 0.7 and returns.
\<close>

theorem decay_factor_unvalidated:
  "apply_author_diversity_decay xs f =
     (if \<exists>i<length xs. float_overflow \<le> \<bar>f ^ earlier_same_author xs i\<bar>
      then Inl OverflowError
      else Inr (map (\<lambda>i. (fst (xs ! i), snd (xs ! i) * f ^ earlier_same_author xs i))
                  [0..<length xs]))
   \<and> (\<bar>f\<bar> \<le> 1 \<longrightarrow>
        apply_author_diversity_decay xs f =
          Inr (map (\<lambda>i. (fst (xs ! i), snd (xs ! i) * f ^ earlier_same_author xs i))
                 [0..<length xs]))
   \<and> (distinct (map (\<lambda>x. author_id (fst x)) xs) \<longrightarrow> apply_author_diversity_decay xs f = Inr xs)
   \<and> (\<exists>g'. rank_posts rnd posts fol g =
              Inr (sort_desc score_of
                     (decay_scored
                        (pre_decay_order (simulate_phoenix_predictions rnd) fol posts g) 0.7),
                   g'))"
proof -
  have a: "apply_author_diversity_decay xs f =
     (if \<exists>i<length xs. float_overflow \<le> \<bar>f ^ earlier_same_author xs i\<bar>
      then Inl OverflowError
      else Inr (map (\<lambda>i. (fst (xs ! i), snd (xs ! i) * f ^ earlier_same_author xs i))
                  [0..<length xs]))"
    by (simp only: apply_author_diversity_decay_eq DiversityDecay_def)
  have b: "\<bar>f\<bar> \<le> 1 \<longrightarrow>
        apply_author_diversity_decay xs f =
          Inr (map (\<lambda>i. (fst (xs ! i), snd (xs ! i) * f ^ earlier_same_author xs i))
                 [0..<length xs])"
    by (simp add: apply_author_diversity_decay_small DiversityDecay_def)
  have c: "distinct (map (\<lambda>x. author_id (fst x)) xs) \<longrightarrow> apply_author_diversity_decay xs f = Inr xs"
  proof
    assume d: "distinct (map (\<lambda>x. author_id (fst x)) xs)"
    have "\<not> (\<exists>i<length xs. float_overflow \<le> \<bar>f ^ earlier_same_author xs i\<bar>)"
      using one_less_float_overflow by (simp add: earlier_same_author_distinct [OF d] not_le)
    then show "apply_author_diversity_decay xs f = Inr xs"
      by (simp add: apply_author_diversity_decay_eq DiversityDecay_distinct [OF d])
  qed
  have d: "\<exists>g'. rank_posts rnd posts fol g =
              Inr (sort_desc score_of
                     (decay_scored
                        (pre_decay_order (simulate_phoenix_predictions rnd) fol posts g) 0.7),
                   g')"
    by (simp add: rank_posts_def rank_posts_with_eq rank_spec_def decayed_items_def
        default_decay_factor_def)
  from a b c d show ?thesis
    by blast
qed

theorem decay_factor_unvalidated_witness:
  "\<bar>- 0.5::real\<bar> \<le> 1
   \<and> apply_author_diversity_decay [(post1, 1.0), (post2, 1.0)] (- 0.5) =
        Inr [(post1, 1.0), (post2, - 0.5)]
   \<and> distinct (map (\<lambda>x. author_id (fst x)) [(post1, 1.0::real), (post3, 1.0)])
   \<and> apply_author_diversity_decay [(post1, 1.0), (post3, 1.0)] (10 ^ 300) =
        Inr [(post1, 1.0), (post3, 1.0)]"
proof -
  have h1: "\<bar>- 0.5::real\<bar> \<le> 1"
    by simp
  have h2: "distinct (map (\<lambda>x. author_id (fst x)) [(post1, 1.0::real), (post3, 1.0)])"
    by (simp add: post1_def post3_def)
  have r1: "apply_author_diversity_decay [(post1, 1.0), (post2, 1.0)] (- 0.5) =
        Inr [(post1, 1.0), (post2, - 0.5)]"
    using decay_factor_unvalidated [of "[(post1, 1.0), (post2, 1.0)]" "- 0.5",
        THEN conjunct2, THEN conjunct1] h1
    by (simp add: earlier_same_author_def upt_conv_Cons post1_def post2_def)
  have r2: "apply_author_diversity_decay [(post1, 1.0), (post3, 1.0)] (10 ^ 300) =
        Inr [(post1, 1.0), (post3, 1.0)]"
    using decay_factor_unvalidated [of "[(post1, 1.0), (post3, 1.0)]" "10 ^ 300",
        THEN conjunct2, THEN conjunct2, THEN conjunct1] h2
    by blast
  from h1 h2 r1 r2 show ?thesis
    by blast
qed

section \<open>Conservation\<close>

lemma length_predictions_for: "length (fst (predictions_for predict fol posts g)) = length posts"
proof (induction posts arbitrary: g)
  case Nil
  then show ?case by simp
next
  case (Cons post posts)
  then show ?case
    by (simp split: prod.splits) (metis fst_conv)
qed

lemma map_fst_scored_items: "map fst (scored_items predict fol posts g) = posts"
  by (rule nth_equalityI) (simp_all add: scored_items_def length_predictions_for split_beta)

lemma item_pv_scored_items:
  "map (\<lambda>(p, s, pv). (p, pv)) (scored_items predict fol posts g) =
     zip posts (fst (predictions_for predict fol posts g))"
  by (rule nth_equalityI) (simp_all add: scored_items_def length_predictions_for split_beta)

lemma item_pv_decay_scored:
  "map (\<lambda>(p, s, pv). (p, pv)) (decay_scored xs f) = map (\<lambda>(p, s, pv). (p, pv)) xs"
  by (rule nth_equalityI) (simp_all add: decay_scored_def split_beta)

lemma map_fst_decay_scored: "map fst (decay_scored xs f) = map fst xs"
  by (rule nth_equalityI) (simp_all add: decay_scored_def split_beta)

lemma mset_items_rank_spec: "mset (map fst (rank_spec predict fol posts g)) = mset posts"
proof -
  have "mset (map fst (rank_spec predict fol posts g)) =
      mset (map fst (decay_scored (pre_decay_order predict fol posts g) default_decay_factor))"
    unfolding rank_spec_def decayed_items_def by (rule mset_map_sort_desc)
  also have "\<dots> = mset (map fst (pre_decay_order predict fol posts g))"
    by (simp only: map_fst_decay_scored)
  also have "\<dots> = mset (map fst (scored_items predict fol posts g))"
    unfolding pre_decay_order_def by (rule mset_map_sort_desc)
  finally show ?thesis
    by (simp only: map_fst_scored_items)
qed

lemma mset_item_pv_rank_spec:
  "mset (map (\<lambda>(p, s, pv). (p, pv)) (rank_spec predict fol posts g)) =
     mset (zip posts (fst (predictions_for predict fol posts g)))"
proof -
  let ?h = "\<lambda>(p, s, pv). (p, pv)"
  have "mset (map ?h (rank_spec predict fol posts g)) =
      mset (map ?h (decay_scored (pre_decay_order predict fol posts g) default_decay_factor))"
    unfolding rank_spec_def decayed_items_def by (rule mset_map_sort_desc)
  also have "\<dots> = mset (map ?h (pre_decay_order predict fol posts g))"
    by (simp only: item_pv_decay_scored)
  also have "\<dots> = mset (map ?h (scored_items predict fol posts g))"
    unfolding pre_decay_order_def by (rule mset_map_sort_desc)
  finally show ?thesis
    by (simp only: item_pv_scored_items)
qed

text \<open>
  C3. For every list of posts, \<^verbatim>\<open>rank_posts\<close> returns a result, and the items of the result
  are a permutation of the input: the same multiset, so nothing is added, dropped or
  duplicated, and the same length. On the empty list the result is empty.
\<close>

theorem rank_posts_permutation:
  "(\<exists>res g'. rank_posts rnd posts fol g = Inr (res, g')
       \<and> mset (map fst res) = mset posts \<and> length res = length posts)
   \<and> rank_posts rnd [] fol g = Inr ([], g)"
proof -
  let ?P = "simulate_phoenix_predictions rnd"
  have m: "mset (map fst (rank_spec ?P fol posts g)) = mset posts"
    by (rule mset_items_rank_spec)
  then have "size (mset (map fst (rank_spec ?P fol posts g))) = size (mset posts)"
    by (rule arg_cong)
  then have l: "length (rank_spec ?P fol posts g) = length posts"
    by simp
  have e: "rank_posts rnd [] fol g = Inr ([], g)"
    by (simp add: rank_posts_def rank_posts_with_eq rank_spec_def decayed_items_def
        pre_decay_order_def scored_items_def decay_scored_def sort_desc_def)
  show ?thesis
    using m l e by (simp add: rank_posts_def rank_posts_with_eq)
qed

text \<open>
  C10. In the result of \<^verbatim>\<open>rank_posts\<close> every item is with the prediction vector that the
  predictor returned for it in step 1: the (item, predictions) pairs of the result are
  the pairs of step 1, as multisets. The rebuild by index is sound because the decay
  keeps every item at its position: whenever \<^verbatim>\<open>apply_author_diversity_decay\<close> returns, and
  with the factor of the pipeline it always does, the items of its result are the items
  of its input, position by position; so the decayed list has, position by position, the
  items and prediction vectors of the list sorted before the decay.
\<close>

theorem rank_posts_predictions_aligned:
  "(\<exists>res g'. rank_posts rnd posts fol g = Inr (res, g')
       \<and> mset (map (\<lambda>(p, s, pv). (p, pv)) res) =
           mset (zip posts (fst (predictions_for (simulate_phoenix_predictions rnd) fol posts g))))
   \<and> (apply_author_diversity_decay xs f = Inr ys \<longrightarrow> map fst ys = map fst xs)
   \<and> (\<exists>zs. apply_author_diversity_decay xs default_decay_factor = Inr zs
          \<and> map fst zs = map fst xs)
   \<and> map (\<lambda>(p, s, pv). (p, pv)) (decayed_items (simulate_phoenix_predictions rnd) fol posts g) =
       map (\<lambda>(p, s, pv). (p, pv)) (pre_decay_order (simulate_phoenix_predictions rnd) fol posts g)"
proof -
  have a: "\<exists>res g'. rank_posts rnd posts fol g = Inr (res, g')
       \<and> mset (map (\<lambda>(p, s, pv). (p, pv)) res) =
           mset (zip posts (fst (predictions_for (simulate_phoenix_predictions rnd) fol posts g)))"
    by (simp add: rank_posts_def rank_posts_with_eq mset_item_pv_rank_spec del: mset_map)
  have b: "apply_author_diversity_decay xs f = Inr ys \<longrightarrow> map fst ys = map fst xs"
    by (auto simp add: apply_author_diversity_decay_eq map_fst_DiversityDecay split: if_splits)
  have c: "\<exists>zs. apply_author_diversity_decay xs default_decay_factor = Inr zs
          \<and> map fst zs = map fst xs"
    by (simp add: apply_author_diversity_decay_default map_fst_DiversityDecay)
  have d: "map (\<lambda>(p, s, pv). (p, pv)) (decayed_items (simulate_phoenix_predictions rnd) fol posts g) =
       map (\<lambda>(p, s, pv). (p, pv)) (pre_decay_order (simulate_phoenix_predictions rnd) fol posts g)"
    by (simp add: decayed_items_def item_pv_decay_scored)
  from a b c d show ?thesis
    by blast
qed

theorem rank_posts_predictions_aligned_witness:
  "apply_author_diversity_decay [(post1, 1.0), (post2, 1.0)] 3.0 = Inr [(post1, 1.0), (post2, 3.0)]
   \<and> map fst [(post1, 1.0::real), (post2, 3.0)] = map fst [(post1, 1.0::real), (post2, 1.0)]"
proof -
  have h: "apply_author_diversity_decay [(post1, 1.0), (post2, 1.0)] 3.0 =
      Inr [(post1, 1.0), (post2, 3.0)]"
    by (simp add: apply_author_diversity_decay_def dict_get_def Let_def post1_def post2_def
        float_pow_def float_overflow_def)
  from rank_posts_predictions_aligned
         [of _ _ _ _ "[(post1, 1.0), (post2, 1.0)]" "3.0" "[(post1, 1.0), (post2, 3.0)]",
          THEN conjunct2, THEN conjunct1] h
  have "map fst [(post1, 1.0::real), (post2, 3.0)] = map fst [(post1, 1.0::real), (post2, 1.0)]"
    by blast
  with h show ?thesis
    by blast
qed

section \<open>Determinism\<close>

lemma predictions_for_stub:
  assumes "\<forall>p b g g'. fst (predict p b g) = fst (predict p b g')"
  shows "fst (predictions_for predict fol posts g) = fst (predictions_for predict fol posts g')"
proof (induction posts arbitrary: g g')
  case Nil
  then show ?case by simp
next
  case (Cons post posts)
  have "fst (predict post (author_id post \<in> fol) g) = fst (predict post (author_id post \<in> fol) g')"
    using assms by blast
  with Cons.IH show ?case
    by (simp split: prod.splits) (metis fst_conv)
qed

lemma rank_spec_stub:
  assumes "\<forall>p b g g'. fst (predict p b g) = fst (predict p b g')"
  shows "rank_spec predict fol posts g = rank_spec predict fol posts g'"
  using predictions_for_stub [OF assms, of fol posts g g']
  by (simp add: rank_spec_def decayed_items_def pre_decay_order_def scored_items_def)

text \<open>
  C8. The only state the ranking reads is the state the predictor threads. With a
  deterministic predictor, one whose prediction for an item does not depend on that
  state, two invocations on the same items and the same followed authors return the
  same sequence of (item, score, predictions), whatever the states they start from; in
  particular a second invocation that starts where the first one ended.
\<close>

theorem rank_deterministic:
  assumes "\<forall>p b g g'. fst (predict p b g) = fst (predict p b g')"
  shows "\<exists>res g1 g2 g3. rank_posts_with predict posts fol g = Inr (res, g1)
            \<and> rank_posts_with predict posts fol g' = Inr (res, g2)
            \<and> rank_posts_with predict posts fol g1 = Inr (res, g3)"
proof -
  let ?g1 = "snd (predictions_for predict fol posts g)"
  have a: "rank_spec predict fol posts g' = rank_spec predict fol posts g"
    by (rule rank_spec_stub [OF assms])
  have b: "rank_spec predict fol posts ?g1 = rank_spec predict fol posts g"
    by (rule rank_spec_stub [OF assms])
  show ?thesis
    by (simp add: rank_posts_with_eq a b)
qed

theorem rank_deterministic_witness:
  "(\<forall>p b g g'. fst (table_predictor tie_table p b g) = fst (table_predictor tie_table p b g'))
   \<and> (\<exists>res g1 g2 g3.
         rank_posts_with (table_predictor tie_table) [tie_y, tie_z, tie_x] {} 0 = Inr (res, g1)
         \<and> rank_posts_with (table_predictor tie_table) [tie_y, tie_z, tie_x] {} 7 = Inr (res, g2)
         \<and> rank_posts_with (table_predictor tie_table) [tie_y, tie_z, tie_x] {} g1 = Inr (res, g3))"
proof -
  have h: "\<forall>p b g g'. fst (table_predictor tie_table p b g) = fst (table_predictor tie_table p b g')"
    by (simp add: table_predictor_def)
  from rank_deterministic [OF h, of "[tie_y, tie_z, tie_x]" "{}" 0 7] h show ?thesis
    by blast
qed

section \<open>Ties\<close>

lemma tie_scores:
  "compute_weighted_score (tie_table ''y'') = Inr 0.7"
  "compute_weighted_score (tie_table ''z'') = Inr 2"
  "compute_weighted_score (tie_table ''x'') = Inr 1"
  by (simp_all add: compute_weighted_score_def compute_weighted_score_with_def ACTION_WEIGHTS_def
      getattr_def field_value_def tie_table_def default_predictions_def)

text \<open>
  C9 as stated fails at the final sort. The input order is \<open>tie_y\<close>, \<open>tie_z\<close>, \<open>tie_x\<close>, with
  scores 0.7, 2 and 1. The first sort gives \<open>tie_z\<close>, \<open>tie_x\<close>, \<open>tie_y\<close>; the decay takes \<open>tie_x\<close>,
  the second item of its author, to 0.7, the score of \<open>tie_y\<close>. The final sort keeps
  \<open>tie_x\<close> before \<open>tie_y\<close>, although \<open>tie_y\<close> is before \<open>tie_x\<close> in the input.
\<close>

theorem final_sort_tie_counterexample:
  "rank_posts_with (table_predictor tie_table) [tie_y, tie_z, tie_x] {} 0 =
     Inr ([(tie_z, 2.0, tie_table ''z''),
           (tie_x, 0.7, tie_table ''x''),
           (tie_y, 0.7, tie_table ''y'')], 3)"
  by (simp add: rank_posts_with_def table_predictor_def tie_scores video_quality_bonus_def
      tie_y_def tie_z_def tie_x_def sort_desc_def score_of_def apply_author_diversity_decay_def
      dict_get_def default_decay_factor_def float_pow_small enumerate_eq_zip upt_conv_Cons
      Let_def)

text \<open>
  C9, amended. Both sorts are stable and descending, so no tie is broken arbitrarily;
  each keeps tied items in the order of the sequence it is given. The first sort is
  given the scored items in input order, so items with equal pre-decay scores stay in
  input order. The final sort is given the decayed sequence, which has the items in
  their pre-decay rank order, so items with equal post-decay scores stay in pre-decay
  rank order.
\<close>

theorem rank_posts_sorts_stable:
  "\<exists>res g'. rank_posts_with predict posts fol g = Inr (res, g')
     \<and> map fst (scored_items predict fol posts g) = posts
     \<and> sorted_wrt (\<ge>) (map score_of (pre_decay_order predict fol posts g))
     \<and> (\<forall>c. filter (\<lambda>x. score_of x = c) (pre_decay_order predict fol posts g) =
              filter (\<lambda>x. score_of x = c) (scored_items predict fol posts g))
     \<and> map fst (decayed_items predict fol posts g) = map fst (pre_decay_order predict fol posts g)
     \<and> sorted_wrt (\<ge>) (map score_of res)
     \<and> (\<forall>c. filter (\<lambda>x. score_of x = c) res =
              filter (\<lambda>x. score_of x = c) (decayed_items predict fol posts g))"
proof -
  have a: "sorted_wrt (\<ge>) (map score_of (pre_decay_order predict fol posts g))"
    unfolding pre_decay_order_def by (rule sort_desc_sorted)
  have b: "filter (\<lambda>x. score_of x = c) (pre_decay_order predict fol posts g) =
      filter (\<lambda>x. score_of x = c) (scored_items predict fol posts g)" for c
    unfolding pre_decay_order_def by (rule sort_desc_stable)
  have c: "map fst (decayed_items predict fol posts g) =
      map fst (pre_decay_order predict fol posts g)"
    unfolding decayed_items_def by (rule map_fst_decay_scored)
  have d: "sorted_wrt (\<ge>) (map score_of (rank_spec predict fol posts g))"
    unfolding rank_spec_def by (rule sort_desc_sorted)
  have e: "filter (\<lambda>x. score_of x = c) (rank_spec predict fol posts g) =
      filter (\<lambda>x. score_of x = c) (decayed_items predict fol posts g)" for c
    unfolding rank_spec_def by (rule sort_desc_stable)
  show ?thesis
    using a b c d e map_fst_scored_items [of predict fol posts g]
    by (simp add: rank_posts_with_eq)
qed

section \<open>The predictor of the code\<close>

text \<open>
  With the predictor of the code, the ranking is reproducible when the draws are: if
  every draw of the generator has the same value, the result is the same from any two
  generator states.
\<close>

lemma uniform_fixed:
  assumes "\<forall>g. fst (rnd g) = c"
  shows "fst (uniform rnd a b g) = a + (b - a) * c"
  using assms by (simp add: uniform_def split_beta)

lemma simulate_phoenix_predictions_fixed:
  assumes "\<forall>g. fst (rnd g) = c"
  shows "fst (simulate_phoenix_predictions rnd p b g) = fst (simulate_phoenix_predictions rnd p b g')"
  by (simp add: simulate_phoenix_predictions_def split_beta Let_def uniform_fixed [OF assms])

lemma rank_posts_fixed_draws:
  assumes "\<forall>g. fst (rnd g) = c"
  shows "\<exists>res g1 g2. rank_posts rnd posts fol g = Inr (res, g1)
            \<and> rank_posts rnd posts fol g' = Inr (res, g2)"
proof -
  have "\<forall>p b g g'. fst (simulate_phoenix_predictions rnd p b g) =
      fst (simulate_phoenix_predictions rnd p b g')"
    using simulate_phoenix_predictions_fixed [OF assms] by blast
  then have "rank_spec (simulate_phoenix_predictions rnd) fol posts g =
      rank_spec (simulate_phoenix_predictions rnd) fol posts g'"
    by (rule rank_spec_stub)
  then show ?thesis
    by (simp add: rank_posts_def rank_posts_with_eq)
qed

text \<open>
  A run of \<^verbatim>\<open>rank_posts\<close> on the six candidates of \<^verbatim>\<open>main\<close>, every draw being 0. Posts 1 and 3
  tie before the decay and stay in input order; post 2, the second of its author, is
  decayed below them.
\<close>

lemma simulate_phoenix_predictions_zero_draws:
  "simulate_phoenix_predictions zero_draws p b n =
     (\<lparr>favorite = (if b then 0.045 else 0.03), reply = (if b then 0.0075 else 0.005),
       repost = (if b then 0.012 else 0.008), quote = (if b then 0.0045 else 0.003),
       click = 0.02, profile_click = 0.004,
       video_view = (if has_video p then 0.052 else 0.01),
       photo_expand = 0.006, share = (if b then 0.006 else 0.004), dwell = 0.05,
       follow_author = 0.001, not_interested = 0.001, block_author = 0.001,
       mute_author = 0.001, report = 0.001\<rparr>, n + 14)"
  by (simp add: simulate_phoenix_predictions_def uniform_def zero_draws_def Let_def)

lemma rank_posts_sample_run:
  "map_sum id (\<lambda>(res, g). (map (\<lambda>(p, s, pv). (id' p, s)) res, g))
     (rank_posts zero_draws [post1, post2, post3, post4, post5, post6] sample_following 0) =
   Inr ([(''4'', 0.5951), (''6'', 0.27657), (''1'', 0.09425), (''3'', 0.09425),
         (''2'', 0.065975), (''5'', 0.0615)], 84)"
  by (simp add: rank_posts_def rank_posts_with_def simulate_phoenix_predictions_zero_draws
      video_quality_bonus_def compute_weighted_score_def compute_weighted_score_with_def
      ACTION_WEIGHTS_def getattr_def field_value_def
      post1_def post2_def post3_def post4_def post5_def post6_def sample_following_def
      sort_desc_def score_of_def apply_author_diversity_decay_def
      dict_get_def default_decay_factor_def float_pow_small enumerate_eq_zip upt_conv_Cons
      Let_def)

end
